theory Spec2Isabelle
  imports Main "HOL-Library.AList" "HOL-Library.Product_Lexorder"
begin

section \<open>Python values that the booker handles\<close>

text \<open>
  Everything \<^verbatim>\<open>skedda.py\<close> reads from the network or from its configuration is the result
  of \<^verbatim>\<open>json.loads\<close>: \<^verbatim>\<open>None\<close>, a bool, an int, a float, a str, a list or a dict with
  string keys. A dict is an association list in insertion order (its keys are distinct in
  Python; \<open>map_of\<close> reads the first entry of a key). A float is carried by the text that
  \<^verbatim>\<open>str\<close> prints for it, the only thing the script ever does with one besides testing
  its truth value.
\<close>

datatype json =
    JNull
  | JBool bool
  | JInt int
  | JFloat string
  | JStr string
  | JList "json list"
  | JObj "(string \<times> json) list"

datatype py_error = AttributeError | TypeError | ValueError

text \<open>The truth value of a Python object, as \<^verbatim>\<open>if x:\<close> tests it.\<close>

fun py_truthy :: "json \<Rightarrow> bool" where
  "py_truthy JNull = False"
| "py_truthy (JBool b) = b"
| "py_truthy (JInt i) = (i \<noteq> 0)"
| "py_truthy (JFloat r) = (r \<noteq> ''0.0'' \<and> r \<noteq> ''-0.0'')"
| "py_truthy (JStr s) = (s \<noteq> [])"
| "py_truthy (JList xs) = (xs \<noteq> [])"
| "py_truthy (JObj kvs) = (kvs \<noteq> [])"

text \<open>Decimal rendering of integers (\<^verbatim>\<open>str(n)\<close>, and \<^verbatim>\<open>{n}\<close> in an f-string).\<close>

fun str_nat :: "nat \<Rightarrow> string" where
  "str_nat n = (if n < 10 then [''0123456789'' ! n]
                else str_nat (n div 10) @ [''0123456789'' ! (n mod 10)])"

declare str_nat.simps [simp del]

definition str_int :: "int \<Rightarrow> string" where
  "str_int i = (if i < 0 then CHR ''-'' # str_nat (nat (- i)) else str_nat (nat i))"

text \<open>
  \<^verbatim>\<open>repr\<close> of a str: single quotes unless the text holds a single quote and no double
  quote; backslash, the chosen quote, tab, newline and carriage return are escaped, other
  control characters are written \<^verbatim>\<open>\xNN\<close>. Strings are byte lists here, so characters
  beyond ASCII are left as their bytes.
\<close>

definition hex2 :: "nat \<Rightarrow> string" where
  "hex2 n = [''0123456789abcdef'' ! (n div 16), ''0123456789abcdef'' ! (n mod 16)]"

definition repr_char :: "char \<Rightarrow> char \<Rightarrow> string" where
  "repr_char q c =
     (if c = CHR 0x5C then [CHR 0x5C, CHR 0x5C]
      else if c = q then [CHR 0x5C, q]
      else if c = CHR 0x09 then [CHR 0x5C, CHR ''t'']
      else if c = CHR 0x0A then [CHR 0x5C, CHR ''n'']
      else if c = CHR 0x0D then [CHR 0x5C, CHR ''r'']
      else if (of_char c :: nat) < 32 \<or> (of_char c :: nat) = 127
        then [CHR 0x5C, CHR ''x''] @ hex2 (of_char c)
      else [c])"

definition repr_str :: "string \<Rightarrow> string" where
  "repr_str s =
     (let q = (if CHR 0x27 \<in> set s \<and> CHR 0x22 \<notin> set s then CHR 0x22 else CHR 0x27)
      in q # concat (map (repr_char q) s) @ [q])"

definition join_comma :: "string list \<Rightarrow> string" where
  "join_comma xs = concat (case xs of [] \<Rightarrow> [] | y # ys \<Rightarrow> y # map (\<lambda>z. '', '' @ z) ys)"

fun py_repr :: "json \<Rightarrow> string" where
  "py_repr JNull = ''None''"
| "py_repr (JBool b) = (if b then ''True'' else ''False'')"
| "py_repr (JInt i) = str_int i"
| "py_repr (JFloat r) = r"
| "py_repr (JStr s) = repr_str s"
| "py_repr (JList xs) = ''['' @ join_comma (map py_repr xs) @ '']''"
| "py_repr (JObj kvs) =
     ''{'' @ join_comma (map (\<lambda>kv. repr_str (fst kv) @ '': '' @ py_repr (snd kv)) kvs) @ ''}''"

text \<open>\<^verbatim>\<open>str(x)\<close>, also what an f-string prints for \<^verbatim>\<open>{x}\<close>.\<close>

definition py_str :: "json \<Rightarrow> string" where
  "py_str v = (case v of JStr s \<Rightarrow> s | _ \<Rightarrow> py_repr v)"

text \<open>The name Python prints for the type of a value, in its error messages.\<close>

fun type_name :: "json \<Rightarrow> string" where
  "type_name JNull = ''NoneType''"
| "type_name (JBool b) = ''bool''"
| "type_name (JInt i) = ''int''"
| "type_name (JFloat r) = ''float''"
| "type_name (JStr s) = ''str''"
| "type_name (JList xs) = ''list''"
| "type_name (JObj kvs) = ''dict''"

text \<open>
  Iteration (\<^verbatim>\<open>for x in v\<close>): a list gives its elements, a dict its keys, a str its
  characters; anything else raises TypeError.
\<close>

fun py_iter :: "json \<Rightarrow> py_error + json list" where
  "py_iter (JList xs) = Inr xs"
| "py_iter (JObj kvs) = Inr (map (\<lambda>kv. JStr (fst kv)) kvs)"
| "py_iter (JStr s) = Inr (map (\<lambda>c. JStr [c]) s)"
| "py_iter v = Inl TypeError"

text \<open>\<^verbatim>\<open>len(v)\<close>: defined for lists, dicts and strs.\<close>

fun py_len :: "json \<Rightarrow> py_error + nat" where
  "py_len (JList xs) = Inr (length xs)"
| "py_len (JObj kvs) = Inr (length kvs)"
| "py_len (JStr s) = Inr (length s)"
| "py_len v = Inl TypeError"

text \<open>\<^verbatim>\<open>d.get(k, default)\<close> on the items of a dict.\<close>

definition dict_get :: "(string \<times> json) list \<Rightarrow> string \<Rightarrow> json \<Rightarrow> json" where
  "dict_get kvs k dflt = (case map_of kvs k of None \<Rightarrow> dflt | Some v \<Rightarrow> v)"

section \<open>Datetimes and \<^verbatim>\<open>datetime.fromisoformat\<close>\<close>

text \<open>
  A \<^verbatim>\<open>datetime\<close> is its seven calendar fields and, when it is aware, its UTC offset in
  microseconds; \<open>utcoffset = None\<close> is a naive datetime.
\<close>

record datetime =
  year :: int
  month :: int
  day :: int
  hour :: int
  minute :: int
  second :: int
  microsecond :: int
  utcoffset :: "int option"

definition is_leap :: "int \<Rightarrow> bool" where
  "is_leap y = (y mod 4 = 0 \<and> (y mod 100 \<noteq> 0 \<or> y mod 400 = 0))"

definition days_in_month :: "int \<Rightarrow> int \<Rightarrow> int" where
  "days_in_month y m =
     (if m = 2 then (if is_leap y then 29 else 28)
      else if m = 4 \<or> m = 6 \<or> m = 9 \<or> m = 11 then 30 else 31)"

definition days_before_year :: "int \<Rightarrow> int" where
  "days_before_year y =
     (let p = y - 1 in p * 365 + p div 4 - p div 100 + p div 400)"

definition days_before_month :: "int \<Rightarrow> int \<Rightarrow> int" where
  "days_before_month y m = sum_list (map (days_in_month y) [1 .. m - 1])"

definition ymd2ord :: "int \<Rightarrow> int \<Rightarrow> int \<Rightarrow> int" where
  "ymd2ord y m d = days_before_year y + days_before_month y m + d"

text \<open>The calendar fields as the tuple that Python compares, and as microseconds.\<close>

definition dt_fields :: "datetime \<Rightarrow> int \<times> int \<times> int \<times> int \<times> int \<times> int \<times> int" where
  "dt_fields d = (year d, month d, day d, hour d, minute d, second d, microsecond d)"

definition dt_micros :: "datetime \<Rightarrow> int" where
  "dt_micros d =
     (((ymd2ord (year d) (month d) (day d) * 24 + hour d) * 60 + minute d) * 60
        + second d) * 1000000 + microsecond d"

text \<open>
  The three-way comparison behind \<^verbatim>\<open><\<close> and \<^verbatim>\<open>>\<close> on datetimes: equal offsets (both
  naive included) compare the fields; a naive and an aware datetime cannot be ordered and
  raise TypeError; two aware datetimes with different offsets compare as instants.
\<close>

definition cmp3 :: "'a::linorder \<Rightarrow> 'a \<Rightarrow> int" where
  "cmp3 a b = (if a < b then - 1 else if a = b then 0 else 1)"

definition dt_cmp :: "datetime \<Rightarrow> datetime \<Rightarrow> py_error + int" where
  "dt_cmp a b =
     (if utcoffset a = utcoffset b then Inr (cmp3 (dt_fields a) (dt_fields b))
      else case (utcoffset a, utcoffset b) of
             (Some oa, Some ob) \<Rightarrow> Inr (cmp3 (dt_micros a - oa) (dt_micros b - ob))
           | _ \<Rightarrow> Inl TypeError)"

definition dt_lt :: "datetime \<Rightarrow> datetime \<Rightarrow> py_error + bool" where
  "dt_lt a b = (case dt_cmp a b of Inl e \<Rightarrow> Inl e | Inr c \<Rightarrow> Inr (c < 0))"

definition dt_gt :: "datetime \<Rightarrow> datetime \<Rightarrow> py_error + bool" where
  "dt_gt a b = (case dt_cmp a b of Inl e \<Rightarrow> Inl e | Inr c \<Rightarrow> Inr (c > 0))"

text \<open>
  \<^verbatim>\<open>datetime.fromisoformat\<close> with the grammar that Python 3.7 to 3.10 document,
  \<^verbatim>\<open>YYYY-MM-DD[*HH[:MM[:SS[.fff[fff]]]][+HH:MM[:SS[.ffffff]]]]\<close>, where \<^verbatim>\<open>*\<close> is any one
  character; the script rewrites a trailing \<^verbatim>\<open>Z\<close> itself because these versions reject
  it. Every rejection is a ValueError. The theorems below use the parser only through its
  result.
\<close>

definition digit :: "char \<Rightarrow> int option" where
  "digit c = (let n = (of_char c :: int) in if 48 \<le> n \<and> n \<le> 57 then Some (n - 48) else None)"

fun digits_from :: "int \<Rightarrow> string \<Rightarrow> int option" where
  "digits_from acc [] = Some acc"
| "digits_from acc (c # cs) =
     (case digit c of None \<Rightarrow> None | Some d \<Rightarrow> digits_from (10 * acc + d) cs)"

definition digits :: "string \<Rightarrow> int option" where
  "digits cs = (if cs = [] then None else digits_from 0 cs)"

definition parse_hh_mm_ss_ff :: "string \<Rightarrow> (int \<times> int \<times> int \<times> int) option" where
  "parse_hh_mm_ss_ff t =
     (let n = length t;
          colon1 = (take 1 (drop 2 t) = '':''); colon2 = (take 1 (drop 5 t) = '':'');
          dot = (take 1 (drop 8 t) = ''.'');
          hh = digits (take 2 t); mm = digits (take 2 (drop 3 t));
          ss = digits (take 2 (drop 6 t)); ff = digits (drop 9 t)
      in if n = 2 then map_option (\<lambda>h. (h, 0, 0, 0)) hh
         else if n = 5 \<and> colon1 then
           (case (hh, mm) of (Some h, Some m) \<Rightarrow> Some (h, m, 0, 0) | _ \<Rightarrow> None)
         else if n = 8 \<and> colon1 \<and> colon2 then
           (case (hh, mm, ss) of (Some h, Some m, Some s) \<Rightarrow> Some (h, m, s, 0) | _ \<Rightarrow> None)
         else if (n = 12 \<or> n = 15) \<and> colon1 \<and> colon2 \<and> dot then
           (case (hh, mm, ss, ff) of
              (Some h, Some m, Some s, Some f) \<Rightarrow>
                Some (h, m, s, if n = 12 then f * 1000 else f)
            | _ \<Rightarrow> None)
         else None)"

definition is_sign :: "char \<Rightarrow> bool" where
  "is_sign c = (c = CHR ''+'' \<or> c = CHR ''-'')"

definition parse_offset :: "string \<Rightarrow> int option option" where
  "parse_offset z =
     (case z of
        [] \<Rightarrow> Some None
      | sg # tz \<Rightarrow>
          if length tz \<notin> {5, 8, 15} then None
          else (case parse_hh_mm_ss_ff tz of
                  None \<Rightarrow> None
                | Some (h, m, s, f) \<Rightarrow>
                    (let td = ((h * 60 + m) * 60 + s) * 1000000 + f;
                         off = (if sg = CHR ''-'' then - td else td)
                     in if td < 86400000000 then Some (Some off) else None)))"

definition parse_isoformat_time ::
    "string \<Rightarrow> ((int \<times> int \<times> int \<times> int) \<times> int option) option" where
  "parse_isoformat_time tstr =
     (case (parse_hh_mm_ss_ff (takeWhile (\<lambda>c. \<not> is_sign c) tstr),
            parse_offset (dropWhile (\<lambda>c. \<not> is_sign c) tstr)) of
        (Some hmsf, Some off) \<Rightarrow> Some (hmsf, off)
      | _ \<Rightarrow> None)"

definition parse_isoformat_date :: "string \<Rightarrow> (int \<times> int \<times> int) option" where
  "parse_isoformat_date d =
     (if length d = 10 \<and> take 1 (drop 4 d) = ''-'' \<and> take 1 (drop 7 d) = ''-'' then
        (case (digits (take 4 d), digits (take 2 (drop 5 d)), digits (drop 8 d)) of
           (Some y, Some m, Some dd) \<Rightarrow> Some (y, m, dd)
         | _ \<Rightarrow> None)
      else None)"

definition fromisoformat :: "string \<Rightarrow> py_error + datetime" where
  "fromisoformat s =
     (case (parse_isoformat_date (take 10 s),
            if length s = 10 then Some ((0, 0, 0, 0), None)
            else parse_isoformat_time (drop 11 s)) of
        (Some (y, m, d), Some ((hh, mi, ss, us), off)) \<Rightarrow>
          if 1 \<le> y \<and> 1 \<le> m \<and> m \<le> 12 \<and> 1 \<le> d \<and> d \<le> days_in_month y m
             \<and> hh < 24 \<and> mi < 60 \<and> ss < 60
          then Inr \<lparr>year = y, month = m, day = d, hour = hh, minute = mi, second = ss,
                    microsecond = us, utcoffset = off\<rparr>
          else Inl ValueError
      | _ \<Rightarrow> Inl ValueError)"

section \<open>The session: requests sent, replies received, lines printed\<close>

text \<open>
  The two endpoints are outside the program. A server is any function from the requests
  sent so far (the last one being the current request) to a reply, so a reply may depend
  on everything the run has done. A reply is a status with a body, which is JSON or text
  that \<^verbatim>\<open>r.json()\<close> rejects with a message, or an exception raised by the transport, with
  its message. The booking payload's fixed fields and the venue and user identifiers are
  constants of the session and are not repeated in the request.
\<close>

datatype request =
    Get_bookingslists string string
  | Post_bookings json string string

datatype body = Not_JSON string | Body json

datatype reply = Response nat body | Raises string

type_synonym server = "request list \<Rightarrow> reply"

record session =
  sent :: "request list"
  printed :: "string list"

text \<open>\<^verbatim>\<open>self.log\<close>; the clock prefix of each line is left out.\<close>

definition log :: "string \<Rightarrow> session \<Rightarrow> session" where
  "log msg st = st\<lparr>printed := printed st @ [msg]\<rparr>"

definition send :: "server \<Rightarrow> request \<Rightarrow> session \<Rightarrow> reply \<times> session" where
  "send srv rq st = (srv (sent st @ [rq]), st\<lparr>sent := sent st @ [rq]\<rparr>)"

subsection \<open>\<^verbatim>\<open>get_bookings\<close>\<close>

text \<open>Python's \<^verbatim>\<open>None\<close> is \<open>JNull\<close>, also when the reply itself holds \<^verbatim>\<open>"bookings": null\<close>.\<close>

definition get_bookings :: "server \<Rightarrow> session \<Rightarrow> string \<Rightarrow> json \<times> session" where
  "get_bookings srv st date =
     (case send srv (Get_bookingslists (date @ ''T00:00:00'') (date @ ''T23:59:59.999'')) st of
        (Raises msg, st1) \<Rightarrow> (JNull, log (''error: '' @ msg) st1)
      | (Response code b, st1) \<Rightarrow>
          if code = 200 then
            (case b of
               Not_JSON msg \<Rightarrow> (JNull, log (''error: '' @ msg) st1)
             | Body (JObj kvs) \<Rightarrow> (dict_get kvs ''bookings'' (JList []), st1)
             | Body v \<Rightarrow>
                 (JNull, log (''error: '' @ [CHR 0x27] @ type_name v @ [CHR 0x27]
                                @ '' object has no attribute '' @ [CHR 0x27] @ ''get''
                                @ [CHR 0x27]) st1))
          else if code = 401 then (JNull, log ''auth expired'' st1)
          else (JNull, log (''failed: '' @ str_nat code) st1))"

subsection \<open>\<^verbatim>\<open>space_is_free\<close>\<close>

definition endswith_Z :: "string \<Rightarrow> bool" where
  "endswith_Z s = (s \<noteq> [] \<and> last s = CHR ''Z'')"

definition replace_Z :: "string \<Rightarrow> string" where
  "replace_Z s = concat (map (\<lambda>c. if c = CHR ''Z'' then ''+00:00'' else [c]) s)"

text \<open>
  Lines 145 to 154, inside the \<^verbatim>\<open>try\<close>: the two timestamps of a booking. A value that is
  not a str has no \<^verbatim>\<open>endswith\<close> or \<^verbatim>\<open>replace\<close> (AttributeError) and is refused by
  \<^verbatim>\<open>fromisoformat\<close> (TypeError).
\<close>

definition booking_times :: "(string \<times> json) list \<Rightarrow> py_error + datetime \<times> datetime" where
  "booking_times kvs =
     (case dict_get kvs ''start'' (JStr []) of
        JStr start_str \<Rightarrow>
          if endswith_Z start_str then
            (case fromisoformat (replace_Z start_str) of
               Inl e \<Rightarrow> Inl e
             | Inr booking_start \<Rightarrow>
                 (case dict_get kvs ''end'' (JStr []) of
                    JStr end_str \<Rightarrow>
                      (case fromisoformat (replace_Z end_str) of
                         Inl e \<Rightarrow> Inl e
                       | Inr booking_end \<Rightarrow> Inr (booking_start, booking_end))
                  | _ \<Rightarrow> Inl AttributeError))
          else
            (case fromisoformat start_str of
               Inl e \<Rightarrow> Inl e
             | Inr booking_start \<Rightarrow>
                 (case dict_get kvs ''end'' (JStr []) of
                    JStr end_str \<Rightarrow>
                      (case fromisoformat end_str of
                         Inl e \<Rightarrow> Inl e
                       | Inr booking_end \<Rightarrow> Inr (booking_start, booking_end))
                  | _ \<Rightarrow> Inl TypeError))
      | _ \<Rightarrow> Inl AttributeError)"

text \<open>
  Line 157: \<^verbatim>\<open>target_start < booking_end and target_end > booking_start\<close>; the second
  comparison is made only when the first holds.
\<close>

definition overlaps ::
    "datetime \<Rightarrow> datetime \<Rightarrow> datetime \<Rightarrow> datetime \<Rightarrow> py_error + bool" where
  "overlaps target_start target_end booking_start booking_end =
     (case dt_lt target_start booking_end of
        Inl e \<Rightarrow> Inl e
      | Inr b \<Rightarrow> if b then dt_gt target_end booking_start else Inr False)"

text \<open>The body of the \<^verbatim>\<open>try\<close>: True when line 158 is reached.\<close>

definition try_overlap ::
    "datetime \<Rightarrow> datetime \<Rightarrow> (string \<times> json) list \<Rightarrow> py_error + bool" where
  "try_overlap target_start target_end kvs =
     (case booking_times kvs of
        Inl e \<Rightarrow> Inl e
      | Inr (booking_start, booking_end) \<Rightarrow>
          overlaps target_start target_end booking_start booking_end)"

text \<open>
  Lines 137 to 141: the list \<^verbatim>\<open>spaces\<close>, and the items of the booking as these lines
  leave them. \<^verbatim>\<open>booking.get('spaces', [])\<close> is the list stored in the booking when there is
  one, so \<^verbatim>\<open>append\<close> then changes the booking itself; an absent field or a str gives a
  new list. A booking that is not a dict has no \<^verbatim>\<open>get\<close>, and only a list has
  \<^verbatim>\<open>append\<close>.
\<close>

definition booking_spaces :: "json \<Rightarrow> py_error + json \<times> (string \<times> json) list" where
  "booking_spaces booking =
     (case booking of
        JObj kvs \<Rightarrow>
          (let stored = dict_get kvs ''spaces'' (JList []);
               spaces = (case stored of JStr s \<Rightarrow> JList [stored] | _ \<Rightarrow> stored);
               space = dict_get kvs ''space'' JNull
           in if py_truthy space then
                (case spaces of
                   JList xs \<Rightarrow>
                     Inr (JList (xs @ [space]),
                          case map_of kvs ''spaces'' of
                            Some (JList ys) \<Rightarrow>
                              AList.update ''spaces'' (JList (ys @ [space])) kvs
                          | _ \<Rightarrow> kvs)
                 | _ \<Rightarrow> Inl AttributeError)
              else Inr (spaces, kvs))
      | _ \<Rightarrow> Inl AttributeError)"

text \<open>Line 143: \<^verbatim>\<open>[str(s) for s in spaces]\<close>, the identifiers the booking blocks.\<close>

definition blocked_ids :: "json \<Rightarrow> py_error + string list" where
  "blocked_ids booking =
     (case booking_spaces booking of
        Inl e \<Rightarrow> Inl e
      | Inr (spaces, kvs') \<Rightarrow>
          (case py_iter spaces of Inl e \<Rightarrow> Inl e | Inr ids \<Rightarrow> Inr (map py_str ids)))"

text \<open>One turn of the loop of lines 135 to 160, returning the booking as it leaves it.\<close>

datatype step = Continue | Return_False | Raise py_error

definition space_is_free_step ::
    "json \<Rightarrow> datetime \<Rightarrow> datetime \<Rightarrow> json \<Rightarrow> step \<times> json" where
  "space_is_free_step space_id target_start target_end booking =
     (case booking_spaces booking of
        Inl e \<Rightarrow> (Raise e, booking)
      | Inr (spaces, kvs') \<Rightarrow>
          (case py_iter spaces of
             Inl e \<Rightarrow> (Raise e, JObj kvs')
           | Inr ids \<Rightarrow>
               if py_str space_id \<in> set (map py_str ids) then
                 (case try_overlap target_start target_end kvs' of
                    Inr True \<Rightarrow> (Return_False, JObj kvs')
                  | _ \<Rightarrow> (Continue, JObj kvs'))
               else (Continue, JObj kvs')))"

fun space_is_free_loop ::
    "json \<Rightarrow> datetime \<Rightarrow> datetime \<Rightarrow> json list \<Rightarrow> (py_error + bool) \<times> json list" where
  "space_is_free_loop space_id target_start target_end [] = (Inr True, [])"
| "space_is_free_loop space_id target_start target_end (booking # rest) =
     (case space_is_free_step space_id target_start target_end booking of
        (Continue, booking') \<Rightarrow>
          (case space_is_free_loop space_id target_start target_end rest of
             (r, rest') \<Rightarrow> (r, booking' # rest'))
      | (Return_False, booking') \<Rightarrow> (Inr False, booking' # rest)
      | (Raise e, booking') \<Rightarrow> (Inl e, booking' # rest))"

text \<open>
  The result, and \<^verbatim>\<open>bookings\<close> as the call leaves it. Only the elements of a list can
  have been changed: the keys of a dict and the characters of a str are strs, on which
  the first line of the loop raises.
\<close>

definition space_is_free ::
    "json \<Rightarrow> string \<Rightarrow> string \<Rightarrow> json \<Rightarrow> (py_error + bool) \<times> json" where
  "space_is_free space_id start_time end_time bookings =
     (case fromisoformat start_time of
        Inl e \<Rightarrow> (Inl e, bookings)
      | Inr target_start \<Rightarrow>
          (case fromisoformat end_time of
             Inl e \<Rightarrow> (Inl e, bookings)
           | Inr target_end \<Rightarrow>
               (case py_iter bookings of
                  Inl e \<Rightarrow> (Inl e, bookings)
                | Inr bs \<Rightarrow>
                    (case space_is_free_loop space_id target_start target_end bs of
                       (r, bs') \<Rightarrow>
                         (r, case bookings of JList xs \<Rightarrow> JList bs' | _ \<Rightarrow> bookings)))))"

subsection \<open>\<^verbatim>\<open>book_space\<close>\<close>

text \<open>\<^verbatim>\<open>'errors' in s\<close> on a str: the text occurs somewhere in it.\<close>

definition contains_text :: "string \<Rightarrow> string \<Rightarrow> bool" where
  "contains_text needle s =
     list_ex (\<lambda>i. take (length needle) (drop i s) = needle) [0 ..< Suc (length s)]"

text \<open>
  Lines 211 to 216, the line a 422 prints. Python's inner \<^verbatim>\<open>try\<close> turns every failure
  (a body that is not JSON, a value with no \<^verbatim>\<open>in\<close>, no subscript or no \<^verbatim>\<open>get\<close>) into
  the bare \<^verbatim>\<open>rejected\<close>; when \<^verbatim>\<open>errors\<close> is missing or falsy nothing is printed.
\<close>

definition rejection_line :: "body \<Rightarrow> string option" where
  "rejection_line b =
     (case b of
        Not_JSON msg \<Rightarrow> Some ''rejected''
      | Body (JObj kvs) \<Rightarrow>
          (case map_of kvs ''errors'' of
             None \<Rightarrow> None
           | Some errors \<Rightarrow>
               if py_truthy errors then
                 (case errors of
                    JList (JObj first # rest) \<Rightarrow>
                      Some (''rejected: ''
                            @ py_str (dict_get first ''detail'' (JStr ''validation error'')))
                  | _ \<Rightarrow> Some ''rejected'')
               else None)
      | Body (JList xs) \<Rightarrow> if JStr ''errors'' \<in> set xs then Some ''rejected'' else None
      | Body (JStr s) \<Rightarrow> if contains_text ''errors'' s then Some ''rejected'' else None
      | Body v \<Rightarrow> Some ''rejected'')"

text \<open>The result is \<^verbatim>\<open>space_id\<close> on a 200 and \<^verbatim>\<open>False\<close> (\<open>JBool False\<close>) otherwise.\<close>

definition book_space ::
    "server \<Rightarrow> session \<Rightarrow> json \<Rightarrow> string \<Rightarrow> string \<Rightarrow> json \<times> session" where
  "book_space srv st space_id start_time end_time =
     (case send srv (Post_bookings space_id start_time end_time) st of
        (Raises msg, st1) \<Rightarrow> (JBool False, log (''error: '' @ msg) st1)
      | (Response code b, st1) \<Rightarrow>
          if code = 200 then (space_id, st1)
          else if code = 422 then
            (JBool False, case rejection_line b of None \<Rightarrow> st1 | Some l \<Rightarrow> log l st1)
          else (JBool False, log (''failed: '' @ str_nat code) st1))"

subsection \<open>\<^verbatim>\<open>run\<close>\<close>

text \<open>
  The loop of lines 239 to 251 over the items of \<^verbatim>\<open>self.spaces\<close> from position \<open>i\<close> on,
  \<open>n\<close> being \<^verbatim>\<open>len(self.spaces)\<close>. It ends by returning a pair (\<open>Some (Inr _)\<close>), by an
  exception of \<^verbatim>\<open>space_is_free\<close> (\<open>Some (Inl _)\<close>) or by running out of candidates
  (\<open>None\<close>). The bookings are passed along because \<^verbatim>\<open>space_is_free\<close> may change them.
\<close>

fun attempts ::
    "server \<Rightarrow> nat \<Rightarrow> string \<Rightarrow> string \<Rightarrow> nat \<Rightarrow> (string \<times> json) list \<Rightarrow> json \<Rightarrow> session
       \<Rightarrow> (py_error + json \<times> string) option \<times> json \<times> session" where
  "attempts srv n start_dt end_dt i [] bookings st = (None, bookings, st)"
| "attempts srv n start_dt end_dt i ((space_id, space_name) # rest) bookings st =
     (let st1 = log (''trying '' @ py_str space_name @ '' ('' @ str_nat (i + 1) @ ''/''
                       @ str_nat n @ '')'') st
      in case space_is_free (JStr space_id) start_dt end_dt bookings of
           (Inl e, bookings') \<Rightarrow> (Some (Inl e), bookings', st1)
         | (Inr free, bookings') \<Rightarrow>
             if free then
               (case book_space srv (log (''booking '' @ py_str space_name @ ''...'') st1)
                       (JStr space_id) start_dt end_dt of
                  (result, st2) \<Rightarrow>
                    if py_truthy result then
                      (Some (Inr (result, ''booked '' @ py_str space_name)), bookings',
                       log (''booked '' @ py_str space_name) st2)
                    else attempts srv n start_dt end_dt (i + 1) rest bookings'
                           (log ''failed'' st2))
             else attempts srv n start_dt end_dt (i + 1) rest bookings'
                    (log ''occupied'' st1))"

text \<open>
  \<^verbatim>\<open>run\<close>, with \<^verbatim>\<open>self.spaces\<close> as the parsed configuration. Its three results are the
  specification's \<open>FetchFailed\<close>, \<open>Booked\<close> and \<open>Exhausted\<close>. An exception of
  \<^verbatim>\<open>len(bookings)\<close>, of \<^verbatim>\<open>self.spaces.items()\<close> or of \<^verbatim>\<open>space_is_free\<close> leaves \<^verbatim>\<open>run\<close>.
\<close>

definition run ::
    "server \<Rightarrow> json \<Rightarrow> session \<Rightarrow> string \<Rightarrow> string \<Rightarrow> string
       \<Rightarrow> (py_error + json \<times> string) \<times> session" where
  "run srv spaces st date start_time end_time =
     (let start_dt = date @ ''T'' @ start_time;
          end_dt = date @ ''T'' @ end_time
      in case get_bookings srv st date of
           (bookings, st1) \<Rightarrow>
             if bookings = JNull then (Inr (JBool False, ''couldn't get bookings''), st1)
             else
               (case py_len bookings of
                  Inl e \<Rightarrow> (Inl e, st1)
                | Inr k \<Rightarrow>
                    (let st2 = log (str_nat k @ '' bookings found'') st1
                     in case spaces of
                          JObj items \<Rightarrow>
                            (case attempts srv (length items) start_dt end_dt 0 items
                                    bookings st2 of
                               (Some r, bookings', st3) \<Rightarrow> (r, st3)
                             | (None, bookings', st3) \<Rightarrow>
                                 (Inr (JBool False,
                                       ''all '' @ str_nat (length items) @ '' spaces taken''),
                                  log ''no spaces available'' st3))
                        | _ \<Rightarrow> (Inl AttributeError, st2))))"

section \<open>What a later call sees of a booking\<close>

text \<open>
  The decision \<^verbatim>\<open>space_is_free\<close> takes on one booking, written from the identifiers the
  booking blocks and from its timestamps only. It is shown below to be the first component
  of \<open>space_is_free_step\<close>.
\<close>

definition step_view :: "json \<Rightarrow> datetime \<Rightarrow> datetime \<Rightarrow> json \<Rightarrow> step" where
  "step_view space_id ts te booking =
     (case blocked_ids booking of
        Inl e \<Rightarrow> Raise e
      | Inr ids \<Rightarrow>
          if py_str space_id \<in> set ids then
            (case booking of
               JObj kvs \<Rightarrow>
                 (case try_overlap ts te kvs of Inr True \<Rightarrow> Return_False | _ \<Rightarrow> Continue)
             | _ \<Rightarrow> Continue)
          else Continue)"

section \<open>Notions used to state the properties\<close>

text \<open>A reply with status 200, the only one either endpoint's caller takes as success.\<close>

definition status_200 :: "reply \<Rightarrow> bool" where
  "status_200 r = (case r of Response code b \<Rightarrow> code = 200 | Raises msg \<Rightarrow> False)"




text \<open>
  The line that line 240 prints for the candidate at position \<open>i\<close> (counted from 0) of
  \<open>n\<close>, and the test that recognises such a line in the output.
\<close>

definition trying_line :: "nat \<Rightarrow> nat \<Rightarrow> json \<Rightarrow> string" where
  "trying_line n i space_name =
     ''trying '' @ py_str space_name @ '' ('' @ str_nat (i + 1) @ ''/'' @ str_nat n @ '')''"

definition is_trying :: "string \<Rightarrow> bool" where
  "is_trying l = (take 7 l = ''trying '')"

text \<open>
  The booking request that \<^verbatim>\<open>run\<close> sends for a candidate, and whether the fetched
  bookings leave a candidate free.
\<close>

definition post_of :: "string \<Rightarrow> string \<Rightarrow> string \<times> json \<Rightarrow> request" where
  "post_of start_dt end_dt c = Post_bookings (JStr (fst c)) start_dt end_dt"

definition candidate_free :: "string \<Rightarrow> string \<Rightarrow> json \<Rightarrow> string \<times> json \<Rightarrow> bool" where
  "candidate_free start_dt end_dt bookings c =
     (fst (space_is_free (JStr (fst c)) start_dt end_dt bookings) = Inr True)"

text \<open>
  Two bookings, or two lists of bookings, that every call of \<^verbatim>\<open>space_is_free\<close> answers
  alike.
\<close>

definition same_step :: "json \<Rightarrow> json \<Rightarrow> bool" where
  "same_step a b = (\<forall>sid ts te. step_view sid ts te a = step_view sid ts te b)"

definition same_view :: "json \<Rightarrow> json \<Rightarrow> bool" where
  "same_view a b =
     (\<forall>sid st en. fst (space_is_free sid st en a) = fst (space_is_free sid st en b))"

section \<open>Properties of the availability check\<close>

lemma dict_get_update_other: "k \<noteq> k' \<Longrightarrow> dict_get (AList.update k' v kvs) k d = dict_get kvs k d"
  by (simp add: dict_get_def update_conv')

lemma booking_times_update: "booking_times (AList.update ''spaces'' v kvs) = booking_times kvs"
proof -
  have s: "dict_get (AList.update ''spaces'' v kvs) ''start'' d = dict_get kvs ''start'' d" for d
    by (simp add: dict_get_update_other)
  have e: "dict_get (AList.update ''spaces'' v kvs) ''end'' d = dict_get kvs ''end'' d" for d
    by (simp add: dict_get_update_other)
  show ?thesis unfolding booking_times_def s e ..
qed

lemma try_overlap_update: "try_overlap ts te (AList.update ''spaces'' v kvs) = try_overlap ts te kvs"
  by (simp add: try_overlap_def booking_times_update)

lemma booking_spaces_times:
  "booking_spaces (JObj kvs) = Inr (spaces, kvs') \<Longrightarrow> try_overlap ts te kvs' = try_overlap ts te kvs"
  by (auto simp: booking_spaces_def Let_def try_overlap_update split: if_splits json.splits option.splits)

lemma booking_spaces_obj: "booking_spaces b = Inr p \<Longrightarrow> \<exists>kvs. b = JObj kvs"
  by (cases b) (simp_all add: booking_spaces_def)

lemma step_fst: "fst (space_is_free_step sid ts te b) = step_view sid ts te b"
proof (cases "booking_spaces b")
  case (Inl e)
  then show ?thesis by (simp add: space_is_free_step_def step_view_def blocked_ids_def)
next
  case (Inr p)
  obtain spaces kvs' where p: "p = (spaces, kvs')" by (cases p)
  from Inr obtain kvs where b: "b = JObj kvs" using booking_spaces_obj by blast
  have t: "try_overlap ts te kvs' = try_overlap ts te kvs"
    using Inr p b booking_spaces_times by blast
  show ?thesis
    using Inr p b t
    by (simp add: space_is_free_step_def step_view_def blocked_ids_def split: sum.splits bool.splits)
qed

lemma loop_fst_Cons:
  "fst (space_is_free_loop sid ts te (b # xs)) =
     (case step_view sid ts te b of
        Continue \<Rightarrow> fst (space_is_free_loop sid ts te xs)
      | Return_False \<Rightarrow> Inr False
      | Raise e \<Rightarrow> Inl e)"
  using step_fst [of sid ts te b]
  by (cases "space_is_free_step sid ts te b") (auto split: step.splits prod.splits)

lemma loop_skip:
  "step_view sid ts te b = Continue \<Longrightarrow>
   fst (space_is_free_loop sid ts te (pre @ b # post)) = fst (space_is_free_loop sid ts te (pre @ post))"
  by (induction pre) (simp_all add: loop_fst_Cons del: space_is_free_loop.simps split: step.splits)

lemma loop_insert:
  "fst (space_is_free_loop sid ts te (pre @ post)) = Inr True \<Longrightarrow>
   fst (space_is_free_loop sid ts te (pre @ b # post)) =
     (case step_view sid ts te b of
        Continue \<Rightarrow> Inr True | Return_False \<Rightarrow> Inr False | Raise e \<Rightarrow> Inl e)"
  by (induction pre) (auto simp add: loop_fst_Cons simp del: space_is_free_loop.simps split: step.splits)

lemma space_is_free_fst:
  "fst (space_is_free sid st en bk) =
     (case fromisoformat st of
        Inl e \<Rightarrow> Inl e
      | Inr ts \<Rightarrow>
          (case fromisoformat en of
             Inl e \<Rightarrow> Inl e
           | Inr te \<Rightarrow>
               (case py_iter bk of
                  Inl e \<Rightarrow> Inl e
                | Inr bs \<Rightarrow> fst (space_is_free_loop sid ts te bs))))"
  by (simp add: space_is_free_def split: sum.splits prod.splits)

lemma naive_lt: "utcoffset a = None \<Longrightarrow> utcoffset b = None \<Longrightarrow> dt_lt a b = Inr (dt_fields a < dt_fields b)"
  by (simp add: dt_lt_def dt_cmp_def cmp3_def)

lemma naive_gt: "utcoffset a = None \<Longrightarrow> utcoffset b = None \<Longrightarrow> dt_gt a b = Inr (dt_fields b < dt_fields a)"
  by (auto simp add: dt_gt_def dt_cmp_def cmp3_def)

lemma naive_overlaps:
  "utcoffset rs = None \<Longrightarrow> utcoffset re = None \<Longrightarrow> utcoffset bs = None \<Longrightarrow> utcoffset be = None \<Longrightarrow>
   overlaps rs re bs be = Inr (dt_fields rs < dt_fields be \<and> dt_fields bs < dt_fields re)"
  by (simp add: overlaps_def naive_lt naive_gt)

lemma aware_reservation_skipped:
  assumes "utcoffset ts = None" and "booking_times kvs = Inr (bs, be)" and "utcoffset be \<noteq> None"
  shows "step_view space_id ts te (JObj kvs) \<noteq> Return_False"
  using assms
  by (auto simp add: step_view_def try_overlap_def overlaps_def dt_lt_def dt_cmp_def
           split: sum.splits bool.splits option.splits)



section \<open>A check never changes the answer of a later check\<close>

text \<open>
  \<^verbatim>\<open>space_is_free\<close> may append to the \<^verbatim>\<open>spaces\<close> list of a booking. The appended
  identifier is one the list already decides membership for after the first call, so the
  result of every later call is the one the fetched bookings give.
\<close>

lemma booking_spaces_result:
  assumes "booking_spaces (JObj kvs) = Inr (spaces, kvs')"
  shows "kvs' = kvs \<or>
         (\<exists>ys. map_of kvs ''spaces'' = Some (JList ys) \<and> py_truthy (dict_get kvs ''space'' JNull)
               \<and> kvs' = AList.update ''spaces'' (JList (ys @ [dict_get kvs ''space'' JNull])) kvs)"
  using assms
  by (auto simp add: booking_spaces_def Let_def split: if_splits json.splits option.splits)

lemma blocked_ids_before:
  assumes "map_of kvs ''spaces'' = Some (JList ys)" and "py_truthy (dict_get kvs ''space'' JNull)"
  shows "blocked_ids (JObj kvs) = Inr (map py_str (ys @ [dict_get kvs ''space'' JNull]))"
  using assms by (simp add: blocked_ids_def booking_spaces_def dict_get_def Let_def)

lemma blocked_ids_grown:
  assumes "map_of kvs ''spaces'' = Some (JList ys)" and "py_truthy (dict_get kvs ''space'' JNull)"
  shows "blocked_ids (JObj (AList.update ''spaces'' (JList (ys @ [dict_get kvs ''space'' JNull])) kvs)) =
           Inr (map py_str (ys @ [dict_get kvs ''space'' JNull, dict_get kvs ''space'' JNull]))"
proof -
  let ?sp = "dict_get kvs ''space'' JNull"
  let ?kvs' = "AList.update ''spaces'' (JList (ys @ [?sp])) kvs"
  have a: "map_of ?kvs' ''spaces'' = Some (JList (ys @ [?sp]))" by (simp add: update_conv')
  have b: "dict_get ?kvs' ''space'' JNull = ?sp" by (simp add: dict_get_update_other)
  have "py_truthy (dict_get ?kvs' ''space'' JNull)" using assms(2) b by simp
  from blocked_ids_before [OF a this] show ?thesis using b by simp
qed

lemma step_view_kept:
  assumes "booking_spaces (JObj kvs) = Inr (spaces, kvs')"
  shows "step_view sid ts te (JObj kvs') = step_view sid ts te (JObj kvs)"
proof -
  from booking_spaces_result [OF assms] show ?thesis
  proof
    assume "kvs' = kvs" then show ?thesis by simp
  next
    assume "\<exists>ys. map_of kvs ''spaces'' = Some (JList ys) \<and> py_truthy (dict_get kvs ''space'' JNull)
               \<and> kvs' = AList.update ''spaces'' (JList (ys @ [dict_get kvs ''space'' JNull])) kvs"
    then obtain ys where y: "map_of kvs ''spaces'' = Some (JList ys)"
      and t: "py_truthy (dict_get kvs ''space'' JNull)"
      and k: "kvs' = AList.update ''spaces'' (JList (ys @ [dict_get kvs ''space'' JNull])) kvs"
      by blast
    show ?thesis
      unfolding step_view_def k blocked_ids_grown [OF y t] blocked_ids_before [OF y t]
      by (simp add: try_overlap_update)
  qed
qed

lemma step_snd:
  "snd (space_is_free_step sid ts te b) = b \<or>
   (\<exists>kvs spaces kvs'. b = JObj kvs \<and> booking_spaces b = Inr (spaces, kvs')
        \<and> snd (space_is_free_step sid ts te b) = JObj kvs')"
proof (cases "booking_spaces b")
  case (Inl e)
  then show ?thesis by (simp add: space_is_free_step_def)
next
  case (Inr p)
  obtain spaces kvs' where p: "p = (spaces, kvs')" by (cases p)
  from Inr obtain kvs where b: "b = JObj kvs" using booking_spaces_obj by blast
  have "snd (space_is_free_step sid ts te b) = JObj kvs'"
    using Inr p by (simp add: space_is_free_step_def split: sum.splits bool.splits)
  then show ?thesis using Inr p b by blast
qed

lemma same_step_after: "same_step (snd (space_is_free_step sid ts te b)) b"
  using step_snd [of sid ts te b] step_view_kept
  by (auto simp add: same_step_def)

lemma loop_same_step:
  "list_all2 same_step xs ys \<Longrightarrow>
   fst (space_is_free_loop sid ts te xs) = fst (space_is_free_loop sid ts te ys)"
  by (induction xs ys rule: list_all2_induct)
     (auto simp add: loop_fst_Cons same_step_def simp del: space_is_free_loop.simps(2)
           split: step.splits)

lemma same_step_refl: "same_step b b"
  by (simp add: same_step_def)

lemma loop_after: "list_all2 same_step (snd (space_is_free_loop sid ts te bs)) bs"
proof (induction bs)
  case Nil
  then show ?case by simp
next
  case (Cons b bs)
  show ?case
    using Cons same_step_after [of sid ts te b]
    by (cases "space_is_free_step sid ts te b")
       (auto simp add: list_all2_refl same_step_refl split: step.splits prod.splits)
qed

lemma space_is_free_snd:
  "snd (space_is_free sid st en bk) = bk \<or>
   (\<exists>ts te bs. bk = JList bs \<and> snd (space_is_free sid st en bk) = JList (snd (space_is_free_loop sid ts te bs)))"
proof (cases bk)
  case (JList bs)
  show ?thesis
  proof (cases "fromisoformat st")
    case (Inl e)
    then show ?thesis by (simp add: space_is_free_def)
  next
    case s: (Inr ts)
    show ?thesis
    proof (cases "fromisoformat en")
      case (Inl e)
      then show ?thesis using s by (simp add: space_is_free_def)
    next
      case (Inr te)
      have "snd (space_is_free sid st en bk) = JList (snd (space_is_free_loop sid ts te bs))"
        using s Inr JList by (simp add: space_is_free_def split: prod.splits)
      then show ?thesis using JList by blast
    qed
  qed
qed (auto simp add: space_is_free_def split: sum.splits prod.splits)

lemma same_view_after: "same_view (snd (space_is_free sid st en bk)) bk"
proof -
  from space_is_free_snd [of sid st en bk] show ?thesis
  proof
    assume "snd (space_is_free sid st en bk) = bk"
    then show ?thesis by (simp add: same_view_def)
  next
    assume "\<exists>ts te bs. bk = JList bs \<and> snd (space_is_free sid st en bk) = JList (snd (space_is_free_loop sid ts te bs))"
    then obtain ts te bs where b: "bk = JList bs"
      and s: "snd (space_is_free sid st en bk) = JList (snd (space_is_free_loop sid ts te bs))"
      by blast
    have s': "snd (space_is_free sid st en (JList bs)) = JList (snd (space_is_free_loop sid ts te bs))"
      using s b by simp
    show ?thesis
      unfolding same_view_def b s'
      by (simp add: space_is_free_fst loop_same_step [OF loop_after] split: sum.splits)
  qed
qed

lemma same_view_trans: "same_view a b \<Longrightarrow> same_view b c \<Longrightarrow> same_view a c"
  by (simp add: same_view_def)

section \<open>Properties of the booking loop\<close>

lemma sent_log [simp]: "sent (log l st) = sent st"
  by (simp add: log_def)

lemma printed_log [simp]: "printed (log l st) = printed st @ [l]"
  by (simp add: log_def)

lemma rejection_line_not_trying: "rejection_line b = Some l \<Longrightarrow> \<not> is_trying l"
  by (auto simp add: rejection_line_def is_trying_def
           split: body.splits json.splits option.splits if_splits list.splits)

lemma book_space_ok:
  "status_200 (srv (sent st @ [Post_bookings sid sd ed])) \<Longrightarrow>
   book_space srv st sid sd ed = (sid, st\<lparr>sent := sent st @ [Post_bookings sid sd ed]\<rparr>)"
  by (auto simp add: book_space_def send_def status_200_def split: reply.splits)

lemma book_space_fail:
  assumes "\<not> status_200 (srv (sent st @ [Post_bookings sid sd ed]))"
  shows "fst (book_space srv st sid sd ed) = JBool False"
    and "sent (snd (book_space srv st sid sd ed)) = sent st @ [Post_bookings sid sd ed]"
    and "\<exists>ls. printed (snd (book_space srv st sid sd ed)) = printed st @ ls \<and> filter is_trying ls = []"
proof -
  show "fst (book_space srv st sid sd ed) = JBool False"
    using assms by (auto simp add: book_space_def send_def status_200_def split: reply.splits)
  show "sent (snd (book_space srv st sid sd ed)) = sent st @ [Post_bookings sid sd ed]"
    by (auto simp add: book_space_def send_def split: reply.splits option.splits)
  show "\<exists>ls. printed (snd (book_space srv st sid sd ed)) = printed st @ ls \<and> filter is_trying ls = []"
  proof (cases "srv (sent st @ [Post_bookings sid sd ed])")
    case (Raises msg)
    then show ?thesis by (simp add: book_space_def send_def is_trying_def)
  next
    case (Response code b)
    show ?thesis
    proof (cases "rejection_line b")
      case None
      then show ?thesis using Response
        by (simp add: book_space_def send_def is_trying_def)
    next
      case (Some l)
      then show ?thesis using Response rejection_line_not_trying [OF Some]
        by (simp add: book_space_def send_def is_trying_def)
    qed
  qed
qed

lemma attempts_Cons_occupied:
  assumes "fst (space_is_free (JStr sid) sd ed bk) = Inr False"
  shows "attempts srv n sd ed i ((sid, nm) # cs) bk st =
           attempts srv n sd ed (Suc i) cs (snd (space_is_free (JStr sid) sd ed bk))
             (log ''occupied'' (log (trying_line n i nm) st))"
  using assms
  by (cases "space_is_free (JStr sid) sd ed bk") (simp add: trying_line_def)

lemma attempts_Cons_failed:
  assumes "fst (space_is_free (JStr sid) sd ed bk) = Inr True"
    and "\<not> status_200 (srv (sent st @ [Post_bookings (JStr sid) sd ed]))"
  shows "attempts srv n sd ed i ((sid, nm) # cs) bk st =
           attempts srv n sd ed (Suc i) cs (snd (space_is_free (JStr sid) sd ed bk))
             (log ''failed'' (snd (book_space srv (log (''booking '' @ py_str nm @ ''...'')
                  (log (trying_line n i nm) st)) (JStr sid) sd ed)))"
proof -
  let ?st1 = "log (''booking '' @ py_str nm @ ''...'') (log (trying_line n i nm) st)"
  have "\<not> status_200 (srv (sent ?st1 @ [Post_bookings (JStr sid) sd ed]))"
    using assms(2) by simp
  then have "fst (book_space srv ?st1 (JStr sid) sd ed) = JBool False"
    by (rule book_space_fail(1) [where srv = srv and st = ?st1])
  then have "\<not> py_truthy (fst (book_space srv ?st1 (JStr sid) sd ed))"
    by simp
  then show ?thesis
    using assms(1)
    by (cases "space_is_free (JStr sid) sd ed bk"; cases "book_space srv ?st1 (JStr sid) sd ed")
       (simp add: trying_line_def)
qed

lemma attempts_Cons_booked:
  assumes "fst (space_is_free (JStr sid) sd ed bk) = Inr True"
    and "status_200 (srv (sent st @ [Post_bookings (JStr sid) sd ed]))"
    and "sid \<noteq> []"
  shows "attempts srv n sd ed i ((sid, nm) # cs) bk st =
           (Some (Inr (JStr sid, ''booked '' @ py_str nm)),
            snd (space_is_free (JStr sid) sd ed bk),
            st\<lparr>sent := sent st @ [Post_bookings (JStr sid) sd ed],
               printed := printed st @ [trying_line n i nm, ''booking '' @ py_str nm @ ''...'',
                                        ''booked '' @ py_str nm]\<rparr>)"
proof -
  let ?st1 = "log (''booking '' @ py_str nm @ ''...'') (log (trying_line n i nm) st)"
  have "status_200 (srv (sent ?st1 @ [Post_bookings (JStr sid) sd ed]))"
    using assms(2) by simp
  then have "book_space srv ?st1 (JStr sid) sd ed =
               (JStr sid, ?st1\<lparr>sent := sent ?st1 @ [Post_bookings (JStr sid) sd ed]\<rparr>)"
    by (rule book_space_ok [where srv = srv and st = ?st1])
  then show ?thesis
    using assms(1,3)
    by (cases "space_is_free (JStr sid) sd ed bk") (simp add: trying_line_def log_def)
qed

lemma trying_line_is_trying: "is_trying (trying_line n i nm)"
  by (simp add: is_trying_def trying_line_def)

lemma attempts_exhausted:
  assumes "same_view bk bk0"
    and "\<forall>j < length cs.
           fst (space_is_free (JStr (fst (cs ! j))) sd ed bk0) = Inr False
           \<or> (candidate_free sd ed bk0 (cs ! j)
              \<and> \<not> status_200 (srv (sent st
                    @ map (post_of sd ed) (filter (candidate_free sd ed bk0) (take j cs))
                    @ [post_of sd ed (cs ! j)])))"
  shows "\<exists>bk' st'. attempts srv n sd ed i cs bk st = (None, bk', st')
           \<and> sent st' = sent st @ map (post_of sd ed) (filter (candidate_free sd ed bk0) cs)
           \<and> (\<exists>ls. printed st' = printed st @ ls
                 \<and> filter is_trying ls = map (\<lambda>j. trying_line n (i + j) (snd (cs ! j))) [0 ..< length cs])"
  using assms
proof (induction cs arbitrary: i bk st)
  case Nil
  then show ?case by simp
next
  case (Cons c cs)
  obtain sid nm where c: "c = (sid, nm)" by (cases c)
  let ?bk' = "snd (space_is_free (JStr sid) sd ed bk)"
  have v: "same_view ?bk' bk0"
    using same_view_after Cons.prems(1) same_view_trans by blast
  have e: "fst (space_is_free (JStr sid) sd ed bk) = fst (space_is_free (JStr sid) sd ed bk0)"
    using Cons.prems(1) by (simp add: same_view_def)
  have h0: "fst (space_is_free (JStr sid) sd ed bk0) = Inr False
            \<or> (candidate_free sd ed bk0 c
               \<and> \<not> status_200 (srv (sent st @ [Post_bookings (JStr sid) sd ed])))"
    using Cons.prems(2) [rule_format, of 0] c by (simp add: post_of_def)
  have hS: "fst (space_is_free (JStr (fst (cs ! j))) sd ed bk0) = Inr False
            \<or> (candidate_free sd ed bk0 (cs ! j)
               \<and> \<not> status_200 (srv (sent st
                     @ map (post_of sd ed) (filter (candidate_free sd ed bk0) (c # take j cs))
                     @ [post_of sd ed (cs ! j)])))"
    if "j < length cs" for j
    using Cons.prems(2) [rule_format, of "Suc j"] that by simp
  have idx: "map (\<lambda>j. trying_line n (i + j) (snd ((c # cs) ! j))) [0 ..< length (c # cs)] =
             trying_line n i nm # map (\<lambda>j. trying_line n (Suc i + j) (snd (cs ! j))) [0 ..< length cs]"
    using c by (simp add: map_upt_Suc del: upt_Suc)
  from h0 show ?case
  proof
    assume occ: "fst (space_is_free (JStr sid) sd ed bk0) = Inr False"
    let ?st2 = "log ''occupied'' (log (trying_line n i nm) st)"
    have nf: "\<not> candidate_free sd ed bk0 c"
      using occ c by (simp add: candidate_free_def)
    have step: "attempts srv n sd ed i (c # cs) bk st = attempts srv n sd ed (Suc i) cs ?bk' ?st2"
      using occ e c by (simp add: attempts_Cons_occupied del: attempts.simps)
    have hyp: "\<forall>j < length cs.
           fst (space_is_free (JStr (fst (cs ! j))) sd ed bk0) = Inr False
           \<or> (candidate_free sd ed bk0 (cs ! j)
              \<and> \<not> status_200 (srv (sent ?st2
                    @ map (post_of sd ed) (filter (candidate_free sd ed bk0) (take j cs))
                    @ [post_of sd ed (cs ! j)])))"
      using hS nf by simp
    from Cons.IH [OF v hyp, of "Suc i"] obtain bk'' st'' ls where
      r: "attempts srv n sd ed (Suc i) cs ?bk' ?st2 = (None, bk'', st'')"
      and s: "sent st'' = sent ?st2 @ map (post_of sd ed) (filter (candidate_free sd ed bk0) cs)"
      and p: "printed st'' = printed ?st2 @ ls"
      and f: "filter is_trying ls = map (\<lambda>j. trying_line n (Suc i + j) (snd (cs ! j))) [0 ..< length cs]"
      by blast
    have p': "printed st'' = printed st @ (trying_line n i nm # ''occupied'' # ls)"
      using p by simp
    have f': "filter is_trying (trying_line n i nm # ''occupied'' # ls) =
              map (\<lambda>j. trying_line n (i + j) (snd ((c # cs) ! j))) [0 ..< length (c # cs)]"
      unfolding idx using f by (simp add: trying_line_is_trying) (simp add: is_trying_def)
    have s': "sent st'' = sent st @ map (post_of sd ed) (filter (candidate_free sd ed bk0) (c # cs))"
      using s nf by simp
    have a: "attempts srv n sd ed i (c # cs) bk st = (None, bk'', st'')"
      using step r by simp
    show ?thesis
      by (rule exI [of _ bk''], rule exI [of _ st''], intro conjI, rule a, rule s',
          rule exI [of _ "trying_line n i nm # ''occupied'' # ls"], intro conjI, rule p', rule f')
  next
    assume fr: "candidate_free sd ed bk0 c
               \<and> \<not> status_200 (srv (sent st @ [Post_bookings (JStr sid) sd ed]))"
    let ?st1 = "log (''booking '' @ py_str nm @ ''...'') (log (trying_line n i nm) st)"
    let ?st2 = "log ''failed'' (snd (book_space srv ?st1 (JStr sid) sd ed))"
    have free: "fst (space_is_free (JStr sid) sd ed bk) = Inr True"
      using fr e c by (simp add: candidate_free_def)
    have step: "attempts srv n sd ed i (c # cs) bk st = attempts srv n sd ed (Suc i) cs ?bk' ?st2"
      using free fr c by (simp add: attempts_Cons_failed del: attempts.simps)
    have n1: "\<not> status_200 (srv (sent ?st1 @ [Post_bookings (JStr sid) sd ed]))"
      using fr by simp
    have s2: "sent ?st2 = sent st @ [post_of sd ed c]"
      using book_space_fail(2) [where srv = srv and st = ?st1, OF n1] c by (simp add: post_of_def)
    obtain bl where bl: "printed (snd (book_space srv ?st1 (JStr sid) sd ed)) = printed ?st1 @ bl"
      and bf: "filter is_trying bl = []"
      using book_space_fail(3) [where srv = srv and st = ?st1, OF n1] by blast
    have hyp: "\<forall>j < length cs.
           fst (space_is_free (JStr (fst (cs ! j))) sd ed bk0) = Inr False
           \<or> (candidate_free sd ed bk0 (cs ! j)
              \<and> \<not> status_200 (srv (sent ?st2
                    @ map (post_of sd ed) (filter (candidate_free sd ed bk0) (take j cs))
                    @ [post_of sd ed (cs ! j)])))"
      using hS fr unfolding s2 by simp
    from Cons.IH [OF v hyp, of "Suc i"] obtain bk'' st'' ls where
      r: "attempts srv n sd ed (Suc i) cs ?bk' ?st2 = (None, bk'', st'')"
      and s: "sent st'' = sent ?st2 @ map (post_of sd ed) (filter (candidate_free sd ed bk0) cs)"
      and p: "printed st'' = printed ?st2 @ ls"
      and f: "filter is_trying ls = map (\<lambda>j. trying_line n (Suc i + j) (snd (cs ! j))) [0 ..< length cs]"
      by blast
    have p': "printed st'' =
                printed st @ (trying_line n i nm # (''booking '' @ py_str nm @ ''...'') # bl @ ''failed'' # ls)"
      using p bl by simp
    have f': "filter is_trying (trying_line n i nm # (''booking '' @ py_str nm @ ''...'') # bl @ ''failed'' # ls) =
              map (\<lambda>j. trying_line n (i + j) (snd ((c # cs) ! j))) [0 ..< length (c # cs)]"
      unfolding idx using f bf by (simp add: trying_line_is_trying) (simp add: is_trying_def)
    have s': "sent st'' = sent st @ map (post_of sd ed) (filter (candidate_free sd ed bk0) (c # cs))"
      using s fr unfolding s2 by simp
    have a: "attempts srv n sd ed i (c # cs) bk st = (None, bk'', st'')"
      using step r by simp
    show ?thesis
      by (rule exI [of _ bk''], rule exI [of _ st''], intro conjI, rule a, rule s',
          rule exI [of _ "trying_line n i nm # (''booking '' @ py_str nm @ ''...'') # bl @ ''failed'' # ls"],
          intro conjI, rule p', rule f')
  qed
qed

lemma digit_char_not_t: "n < 10 \<Longrightarrow> ''0123456789'' ! n \<noteq> CHR ''t''"
proof -
  assume "n < 10"
  then have "''0123456789'' ! n \<in> set ''0123456789''" by (intro nth_mem) simp
  then show ?thesis by auto
qed

lemma str_nat_hd: "str_nat k \<noteq> [] \<and> hd (str_nat k) \<noteq> CHR ''t''"
proof (induction k rule: str_nat.induct)
  case (1 n)
  have eq: "str_nat n = (if n < 10 then [''0123456789'' ! n]
                         else str_nat (n div 10) @ [''0123456789'' ! (n mod 10)])"
    by (rule str_nat.simps)
  show ?case
  proof (cases "n < 10")
    case True
    then show ?thesis using digit_char_not_t [OF True] by (simp add: eq)
  next
    case False
    then show ?thesis using 1 by (simp add: eq hd_append)
  qed
qed

lemma get_bookings_sent:
  "sent (snd (get_bookings srv st date)) =
     sent st @ [Get_bookingslists (date @ ''T00:00:00'') (date @ ''T23:59:59.999'')]"
  by (auto simp add: get_bookings_def send_def split: reply.splits body.splits json.splits)

lemma run_fetch_failed:
  assumes "fst (get_bookings srv st date) = JNull"
  shows "run srv spaces st date start_time end_time =
           (Inr (JBool False, ''couldn't get bookings''), snd (get_bookings srv st date))"
  using assms by (cases "get_bookings srv st date") (simp add: run_def)

lemma attempts_append:
  "attempts srv n sd ed i (pre @ rest) bk st =
     (case attempts srv n sd ed i pre bk st of
        (None, bk', st') \<Rightarrow> attempts srv n sd ed (i + length pre) rest bk' st'
      | (Some r, bk', st') \<Rightarrow> (Some r, bk', st'))"
proof (induction pre arbitrary: i bk st)
  case Nil
  then show ?case by simp
next
  case (Cons c pre)
  obtain sid nm where c: "c = (sid, nm)" by (cases c)
  obtain r bk' where sf: "space_is_free (JStr sid) sd ed bk = (r, bk')"
    by (cases "space_is_free (JStr sid) sd ed bk")
  have len: "i + length (c # pre) = Suc i + length pre" by simp
  show ?case
  proof (cases r)
    case (Inl e)
    then show ?thesis using sf c by simp
  next
    case (Inr free)
    show ?thesis
    proof (cases free)
      case True
      obtain res st2 where
        "book_space srv (log (''booking '' @ py_str nm @ ''...'')
             (log (''trying '' @ py_str nm @ '' ('' @ str_nat (i + 1) @ ''/'' @ str_nat n @ '')'') st))
           (JStr sid) sd ed = (res, st2)"
        by (cases "book_space srv (log (''booking '' @ py_str nm @ ''...'')
             (log (''trying '' @ py_str nm @ '' ('' @ str_nat (i + 1) @ ''/'' @ str_nat n @ '')'') st))
           (JStr sid) sd ed")
      then show ?thesis unfolding len using sf c Inr True by (simp add: Cons.IH)
    next
      case False
      then show ?thesis unfolding len using sf c Inr by (simp add: Cons.IH)
    qed
  qed
qed

lemma attempts_same_view:
  "same_view bk bk0 \<Longrightarrow> same_view (fst (snd (attempts srv n sd ed i cs bk st))) bk0"
proof (induction cs arbitrary: i bk st)
  case Nil
  then show ?case by simp
next
  case (Cons c cs)
  obtain sid nm where c: "c = (sid, nm)" by (cases c)
  obtain r bk' where sf: "space_is_free (JStr sid) sd ed bk = (r, bk')"
    by (cases "space_is_free (JStr sid) sd ed bk")
  have v: "same_view bk' bk0"
    using same_view_after [of "JStr sid" sd ed bk] sf Cons.prems same_view_trans by fastforce
  show ?case
  proof (cases r)
    case (Inl e)
    then show ?thesis using sf c v by simp
  next
    case (Inr free)
    show ?thesis
    proof (cases free)
      case True
      obtain res st2 where
        "book_space srv (log (''booking '' @ py_str nm @ ''...'')
             (log (''trying '' @ py_str nm @ '' ('' @ str_nat (i + 1) @ ''/'' @ str_nat n @ '')'') st))
           (JStr sid) sd ed = (res, st2)"
        by (cases "book_space srv (log (''booking '' @ py_str nm @ ''...'')
             (log (''trying '' @ py_str nm @ '' ('' @ str_nat (i + 1) @ ''/'' @ str_nat n @ '')'') st))
           (JStr sid) sd ed")
      then show ?thesis using sf c Inr True v Cons.IH [OF v] by simp
    next
      case False
      then show ?thesis using sf c Inr v Cons.IH [OF v] by simp
    qed
  qed
qed

lemma first_acknowledgement_stops:
  assumes "same_view bk bk0"
    and "\<forall>j < length pre.
           fst (space_is_free (JStr (fst (pre ! j))) sd ed bk0) = Inr False
           \<or> (candidate_free sd ed bk0 (pre ! j)
              \<and> \<not> status_200 (srv (sent st
                    @ map (post_of sd ed) (filter (candidate_free sd ed bk0) (take j pre))
                    @ [post_of sd ed (pre ! j)])))"
    and "candidate_free sd ed bk0 (sid, nm)"
    and "status_200 (srv (sent st @ map (post_of sd ed) (filter (candidate_free sd ed bk0) pre)
                          @ [post_of sd ed (sid, nm)]))"
    and "sid \<noteq> []"
  shows "\<exists>bk' st'. attempts srv n sd ed i (pre @ (sid, nm) # rest) bk st =
                     (Some (Inr (JStr sid, ''booked '' @ py_str nm)), bk', st')
           \<and> sent st' = sent st @ map (post_of sd ed) (filter (candidate_free sd ed bk0) pre)
                           @ [post_of sd ed (sid, nm)]"
proof -
  from attempts_exhausted [OF assms(1,2), of n i] obtain bk1 st1 where
    r: "attempts srv n sd ed i pre bk st = (None, bk1, st1)"
    and s: "sent st1 = sent st @ map (post_of sd ed) (filter (candidate_free sd ed bk0) pre)"
    by blast
  have v: "same_view bk1 bk0"
    using attempts_same_view [OF assms(1), of srv n sd ed i pre st] r by simp
  have free: "fst (space_is_free (JStr sid) sd ed bk1) = Inr True"
    using assms(3) v by (simp add: candidate_free_def same_view_def)
  have ok: "status_200 (srv (sent st1 @ [Post_bookings (JStr sid) sd ed]))"
    using assms(4) s by (simp add: post_of_def)
  have "attempts srv n sd ed i (pre @ (sid, nm) # rest) bk st =
          attempts srv n sd ed (i + length pre) ((sid, nm) # rest) bk1 st1"
    using r by (simp add: attempts_append del: attempts.simps)
  then show ?thesis
    using attempts_Cons_booked [where srv = srv and st = st1, OF free ok assms(5)] s
    by (simp add: post_of_def del: attempts.simps)
qed

section \<open>Two runs of the model\<close>

text \<open>
  The example of the specification: \<^verbatim>\<open>r1\<close> is reserved from 08:00 to 12:00, the window
  is 09:00 to 17:00, so Desk A is occupied and Desk B is booked. The second lemma checks a
  reservation written with the \<^verbatim>\<open>Z\<close> marker against a window that carries an offset
  itself: the two are compared as instants and the reservation blocks.
\<close>

lemma specification_example:
  "run (\<lambda>h. case last h of
               Get_bookingslists a b \<Rightarrow>
                 Response 200 (Body (JObj [(''bookings'',
                   JList [JObj [(''spaces'', JList [JStr ''r1'']),
                                (''start'', JStr ''2024-01-01T08:00:00''),
                                (''end'', JStr ''2024-01-01T12:00:00'')]])]))
             | Post_bookings s a b \<Rightarrow> Response 200 (Body (JObj [])))
       (JObj [(''r1'', JStr ''Desk A''), (''r2'', JStr ''Desk B'')])
       \<lparr>sent = [], printed = []\<rparr> ''2024-01-01'' ''09:00:00'' ''17:00:00'' =
     (Inr (JStr ''r2'', ''booked Desk B''),
      \<lparr>sent = [Get_bookingslists ''2024-01-01T00:00:00'' ''2024-01-01T23:59:59.999'',
               Post_bookings (JStr ''r2'') ''2024-01-01T09:00:00'' ''2024-01-01T17:00:00''],
        printed = [''1 bookings found'', ''trying Desk A (1/2)'', ''occupied'',
                   ''trying Desk B (2/2)'', ''booking Desk B...'', ''booked Desk B'']\<rparr>)"
  by code_simp

lemma utc_marker_with_aware_window:
  "fst (space_is_free (JStr ''r1'') ''2024-01-01T08:30:00+00:00'' ''2024-01-01T17:00:00+00:00''
          (JList [JObj [(''spaces'', JList [JStr ''r1'']),
                        (''start'', JStr ''2023-12-31T00:00:00Z''),
                        (''end'', JStr ''2024-01-03T00:00:00Z'')]])) = Inr False"
  by code_simp

section \<open>The claims\<close>

text \<open>
  C1. Take a requested window whose two timestamps parse without an offset, and a
  reservation that blocks the target resource and whose timestamps also parse without an
  offset, anywhere in a list whose other reservations leave the resource free. Then
  \<open>space_is_free\<close> returns False exactly when the requested start is before the
  reservation's end and the requested end is after the reservation's start; when the two
  intervals only touch (the requested end is the reservation's start, or the requested
  start is the reservation's end) it returns True.
\<close>

theorem C1_overlap_test:
  assumes "fromisoformat start_time = Inr rs" and "fromisoformat end_time = Inr re"
    and "utcoffset rs = None" and "utcoffset re = None"
    and "blocked_ids (JObj kvs) = Inr ids" and "py_str space_id \<in> set ids"
    and "booking_times kvs = Inr (bs, be)"
    and "utcoffset bs = None" and "utcoffset be = None"
    and "fst (space_is_free space_id start_time end_time (JList (pre @ post))) = Inr True"
  shows "fst (space_is_free space_id start_time end_time (JList (pre @ JObj kvs # post))) =
           Inr (\<not> (dt_fields rs < dt_fields be \<and> dt_fields bs < dt_fields re))
       \<and> (dt_fields re = dt_fields bs \<or> dt_fields rs = dt_fields be \<longrightarrow>
            fst (space_is_free space_id start_time end_time (JList (pre @ JObj kvs # post))) = Inr True)"
proof -
  have t: "try_overlap rs re kvs = Inr (dt_fields rs < dt_fields be \<and> dt_fields bs < dt_fields re)"
    using assms by (simp add: try_overlap_def naive_overlaps)
  have v: "step_view space_id rs re (JObj kvs) =
             (if dt_fields rs < dt_fields be \<and> dt_fields bs < dt_fields re then Return_False else Continue)"
    using assms(5,6) t by (auto simp add: step_view_def)
  have l: "fst (space_is_free_loop space_id rs re (pre @ post)) = Inr True"
    using assms(1,2,10) by (simp add: space_is_free_fst)
  have r: "fst (space_is_free space_id start_time end_time (JList (pre @ JObj kvs # post))) =
           Inr (\<not> (dt_fields rs < dt_fields be \<and> dt_fields bs < dt_fields re))"
    using assms(1,2) loop_insert [OF l, of "JObj kvs"] v by (simp add: space_is_free_fst)
  show ?thesis using r by auto
qed

theorem C1_overlap_test_witness:
  "fst (space_is_free (JStr ''r1'') ''2024-01-01T09:00:00'' ''2024-01-01T17:00:00''
          (JList [JObj [(''spaces'', JList [JStr ''r1'']),
                        (''start'', JStr ''2024-01-01T08:00:00''),
                        (''end'', JStr ''2024-01-01T12:00:00'')]])) = Inr False
   \<and> fst (space_is_free (JStr ''r1'') ''2024-01-01T12:00:00'' ''2024-01-01T17:00:00''
          (JList [JObj [(''spaces'', JList [JStr ''r1'']),
                        (''start'', JStr ''2024-01-01T08:00:00''),
                        (''end'', JStr ''2024-01-01T12:00:00'')]])) = Inr True"
proof -
  let ?kvs = "[(''spaces'', JList [JStr ''r1'']), (''start'', JStr ''2024-01-01T08:00:00''),
               (''end'', JStr ''2024-01-01T12:00:00'')]"
  let ?d8 = "\<lparr>year = 2024, month = 1, day = 1, hour = 8, minute = 0, second = 0,
               microsecond = 0, utcoffset = None\<rparr>"
  let ?d9 = "\<lparr>year = 2024, month = 1, day = 1, hour = 9, minute = 0, second = 0,
               microsecond = 0, utcoffset = None\<rparr>"
  let ?d12 = "\<lparr>year = 2024, month = 1, day = 1, hour = 12, minute = 0, second = 0,
                microsecond = 0, utcoffset = None\<rparr>"
  let ?d17 = "\<lparr>year = 2024, month = 1, day = 1, hour = 17, minute = 0, second = 0,
                microsecond = 0, utcoffset = None\<rparr>"
  have p9: "fromisoformat ''2024-01-01T09:00:00'' = Inr ?d9" by code_simp
  have p12: "fromisoformat ''2024-01-01T12:00:00'' = Inr ?d12" by code_simp
  have p17: "fromisoformat ''2024-01-01T17:00:00'' = Inr ?d17" by code_simp
  have ids: "blocked_ids (JObj ?kvs) = Inr [''r1'']" by code_simp
  have mem: "py_str (JStr ''r1'') \<in> set [''r1'']" by (simp add: py_str_def)
  have times: "booking_times ?kvs = Inr (?d8, ?d12)" by code_simp
  have e9: "fst (space_is_free (JStr ''r1'') ''2024-01-01T09:00:00'' ''2024-01-01T17:00:00''
                   (JList ([] @ []))) = Inr True"
    by code_simp
  have e12: "fst (space_is_free (JStr ''r1'') ''2024-01-01T12:00:00'' ''2024-01-01T17:00:00''
                    (JList ([] @ []))) = Inr True"
    by code_simp
  have a: "fst (space_is_free (JStr ''r1'') ''2024-01-01T09:00:00'' ''2024-01-01T17:00:00''
                  (JList ([] @ JObj ?kvs # []))) =
             Inr (\<not> (dt_fields ?d9 < dt_fields ?d12 \<and> dt_fields ?d8 < dt_fields ?d17))"
    using C1_overlap_test [OF p9 p17 _ _ ids mem times _ _ e9] by simp
  have b: "dt_fields ?d17 = dt_fields ?d8 \<or> dt_fields ?d12 = dt_fields ?d12 \<longrightarrow>
           fst (space_is_free (JStr ''r1'') ''2024-01-01T12:00:00'' ''2024-01-01T17:00:00''
                  (JList ([] @ JObj ?kvs # []))) = Inr True"
    using C1_overlap_test [OF p12 p17 _ _ ids mem times _ _ e12] by simp
  show ?thesis using a b by (simp add: dt_fields_def)
qed

text \<open>
  C2. The claim: as soon as one booking submission is acknowledged with status 200,
  \<open>run\<close> returns that candidate as booked and contacts no later candidate. The code
  decides success by the truth value of what \<^verbatim>\<open>book_space\<close> returns, which is the
  candidate's identifier; the empty string is a valid key of the configured dict and is
  falsy. With the candidates \<^verbatim>\<open>{"": "Desk A", "r2": "Desk B"}\<close>, no reservations and a
  server that acknowledges every submission, the run books the first candidate, prints
  \<^verbatim>\<open>failed\<close>, goes on, books the second one as well and reports only the second. For a
  non-empty identifier the loop does stop at the first acknowledgement
  (\<open>first_acknowledgement_stops\<close>).
\<close>

theorem C2_empty_identifier_books_twice:
  "run (\<lambda>h. Response 200 (Body (JObj [])))
       (JObj [([], JStr ''Desk A''), (''r2'', JStr ''Desk B'')])
       \<lparr>sent = [], printed = []\<rparr> ''2024-01-01'' ''08:30:00'' ''17:00:00'' =
     (Inr (JStr ''r2'', ''booked Desk B''),
      \<lparr>sent = [Get_bookingslists ''2024-01-01T00:00:00'' ''2024-01-01T23:59:59.999'',
               Post_bookings (JStr []) ''2024-01-01T08:30:00'' ''2024-01-01T17:00:00'',
               Post_bookings (JStr ''r2'') ''2024-01-01T08:30:00'' ''2024-01-01T17:00:00''],
        printed = [''0 bookings found'', ''trying Desk A (1/2)'', ''booking Desk A...'', ''failed'',
                   ''trying Desk B (2/2)'', ''booking Desk B...'', ''booked Desk B'']\<rparr>)"
  by code_simp

text \<open>
  C3. The claim: a reservation whose timestamps end in \<^verbatim>\<open>Z\<close> takes part in the overlap
  test, so that it makes \<open>space_is_free\<close> return False when it blocks the target and
  overlaps the window. The window that \<^verbatim>\<open>run\<close> builds from a date and its default times
  has no offset. The reservation
  below blocks \<^verbatim>\<open>r1\<close> from 31 December to 3 January, its timestamps are read with a zero
  offset, and the comparison of the naive window with them raises TypeError inside the
  \<^verbatim>\<open>try\<close>; the reservation is dropped and the resource is reported free.
\<close>

theorem C3_utc_marker_reservation_ignored:
  "blocked_ids (JObj [(''spaces'', JList [JStr ''r1'']),
                      (''start'', JStr ''2023-12-31T00:00:00Z''),
                      (''end'', JStr ''2024-01-03T00:00:00Z'')]) = Inr [''r1'']
   \<and> booking_times [(''spaces'', JList [JStr ''r1'']),
                     (''start'', JStr ''2023-12-31T00:00:00Z''),
                     (''end'', JStr ''2024-01-03T00:00:00Z'')] =
       Inr (\<lparr>year = 2023, month = 12, day = 31, hour = 0, minute = 0, second = 0,
              microsecond = 0, utcoffset = Some 0\<rparr>,
            \<lparr>year = 2024, month = 1, day = 3, hour = 0, minute = 0, second = 0,
              microsecond = 0, utcoffset = Some 0\<rparr>)
   \<and> fst (space_is_free (JStr ''r1'') ''2024-01-01T08:30:00'' ''2024-01-01T17:00:00''
          (JList [JObj [(''spaces'', JList [JStr ''r1'']),
                        (''start'', JStr ''2023-12-31T00:00:00Z''),
                        (''end'', JStr ''2024-01-03T00:00:00Z'')]])) = Inr True"
  by code_simp

text \<open>
  C4. When the reply to the fetch is not a status 200 (401 included) or the transport raises,
  \<open>run\<close> returns the fetch failure at once: \<^verbatim>\<open>(False, "couldn't get bookings")\<close>. The
  session it leaves holds the one fetch request and the one line \<^verbatim>\<open>get_bookings\<close>
  printed, so no candidate was checked and no booking request was sent.
\<close>

theorem C4_fetch_failure:
  assumes "\<not> status_200 (srv (sent st @ [Get_bookingslists (date @ ''T00:00:00'') (date @ ''T23:59:59.999'')]))"
  shows "run srv spaces st date start_time end_time =
           (Inr (JBool False, ''couldn't get bookings''),
            st\<lparr>sent := sent st @ [Get_bookingslists (date @ ''T00:00:00'') (date @ ''T23:59:59.999'')],
               printed := printed st @
                 [case srv (sent st @ [Get_bookingslists (date @ ''T00:00:00'') (date @ ''T23:59:59.999'')]) of
                    Raises msg \<Rightarrow> ''error: '' @ msg
                  | Response code b \<Rightarrow> if code = 401 then ''auth expired'' else ''failed: '' @ str_nat code]\<rparr>)"
  using assms
  by (auto simp add: run_def get_bookings_def send_def log_def status_200_def Let_def split: reply.splits)

theorem C4_fetch_failure_witness:
  "run (\<lambda>h. Response 401 (Not_JSON ''Expecting value''))
       (JObj [(''r1'', JStr ''Desk A''), (''r2'', JStr ''Desk B'')])
       \<lparr>sent = [], printed = []\<rparr> ''2024-01-01'' ''08:30:00'' ''17:00:00'' =
     (Inr (JBool False, ''couldn't get bookings''),
      \<lparr>sent = [Get_bookingslists ''2024-01-01T00:00:00'' ''2024-01-01T23:59:59.999''],
        printed = [''auth expired'']\<rparr>)"
proof -
  let ?srv = "\<lambda>h :: request list. Response 401 (Not_JSON ''Expecting value'')"
  have f: "\<not> status_200 (?srv (sent \<lparr>sent = [], printed = []\<rparr>
              @ [Get_bookingslists (''2024-01-01'' @ ''T00:00:00'') (''2024-01-01'' @ ''T23:59:59.999'')]))"
    by (simp add: status_200_def)
  show ?thesis
    using C4_fetch_failure [where srv = ?srv and st = "\<lparr>sent = [], printed = []\<rparr>"
        and spaces = "JObj [(''r1'', JStr ''Desk A''), (''r2'', JStr ''Desk B'')]"
        and start_time = "''08:30:00''" and end_time = "''17:00:00''", OF f]
    by simp
qed

text \<open>
  C5. The fetch succeeded, and every one of the \<open>N\<close> candidates is occupied, or is free
  and gets a reply to its booking request that is not a status 200 (the request history
  at that moment being the fetch followed by the requests for the free candidates before
  it). Then \<open>run\<close> returns \<^verbatim>\<open>(False, "all N spaces taken")\<close>; it has printed exactly one
  \<^verbatim>\<open>trying\<close> line per candidate, in the configured order and numbered 1 to \<open>N\<close>; and
  the booking requests it sent are those of the free candidates, once each and in order.
\<close>

theorem C5_all_candidates_exhausted:
  assumes "start_dt = date @ ''T'' @ start_time" and "end_dt = date @ ''T'' @ end_time"
    and "get_bookings srv st date = (bookings, st1)" and "bookings \<noteq> JNull"
    and "py_len bookings = Inr k"
    and "\<forall>j < length items.
           fst (space_is_free (JStr (fst (items ! j))) start_dt end_dt bookings) = Inr False
           \<or> (candidate_free start_dt end_dt bookings (items ! j)
              \<and> \<not> status_200 (srv (sent st1
                    @ map (post_of start_dt end_dt)
                        (filter (candidate_free start_dt end_dt bookings) (take j items))
                    @ [post_of start_dt end_dt (items ! j)])))"
  shows "fst (run srv (JObj items) st date start_time end_time) =
           Inr (JBool False, ''all '' @ str_nat (length items) @ '' spaces taken'')
       \<and> sent (snd (run srv (JObj items) st date start_time end_time)) =
           sent st1 @ map (post_of start_dt end_dt)
                        (filter (candidate_free start_dt end_dt bookings) items)
       \<and> filter is_trying (drop (length (printed st1))
                              (printed (snd (run srv (JObj items) st date start_time end_time)))) =
           map (\<lambda>j. trying_line (length items) j (snd (items ! j))) [0 ..< length items]"
proof -
  let ?st2 = "log (str_nat k @ '' bookings found'') st1"
  have hyp: "\<forall>j < length items.
           fst (space_is_free (JStr (fst (items ! j))) start_dt end_dt bookings) = Inr False
           \<or> (candidate_free start_dt end_dt bookings (items ! j)
              \<and> \<not> status_200 (srv (sent ?st2
                    @ map (post_of start_dt end_dt)
                        (filter (candidate_free start_dt end_dt bookings) (take j items))
                    @ [post_of start_dt end_dt (items ! j)])))"
    using assms(6) by simp
  have v: "same_view bookings bookings" by (simp add: same_view_def)
  from attempts_exhausted [OF v hyp, of "length items" 0] obtain bk' st' ls where
    r: "attempts srv (length items) start_dt end_dt 0 items bookings ?st2 = (None, bk', st')"
    and s: "sent st' = sent ?st2 @ map (post_of start_dt end_dt)
                        (filter (candidate_free start_dt end_dt bookings) items)"
    and p: "printed st' = printed ?st2 @ ls"
    and f: "filter is_trying ls = map (\<lambda>j. trying_line (length items) (0 + j) (snd (items ! j))) [0 ..< length items]"
    by blast
  have run: "run srv (JObj items) st date start_time end_time =
           (Inr (JBool False, ''all '' @ str_nat (length items) @ '' spaces taken''),
            log ''no spaces available'' st')"
    using assms(1-5) r by (simp add: run_def Let_def)
  have pr: "drop (length (printed st1)) (printed (log ''no spaces available'' st')) =
              (str_nat k @ '' bookings found'') # ls @ [''no spaces available'']"
    using p by simp
  have nt: "\<not> is_trying (str_nat k @ '' bookings found'')"
    using str_nat_hd [of k] by (cases "str_nat k") (auto simp add: is_trying_def)
  have n2: "\<not> is_trying ''no spaces available''"
    by (simp add: is_trying_def)
  have c1: "fst (run srv (JObj items) st date start_time end_time) =
           Inr (JBool False, ''all '' @ str_nat (length items) @ '' spaces taken'')"
    using run by simp
  have c2: "sent (snd (run srv (JObj items) st date start_time end_time)) =
           sent st1 @ map (post_of start_dt end_dt)
                        (filter (candidate_free start_dt end_dt bookings) items)"
    using run s by simp
  have "filter is_trying ((str_nat k @ '' bookings found'') # ls @ [''no spaces available'']) =
           map (\<lambda>j. trying_line (length items) j (snd (items ! j))) [0 ..< length items]"
    using f nt n2 by simp
  then have c3: "filter is_trying (drop (length (printed st1))
                              (printed (snd (run srv (JObj items) st date start_time end_time)))) =
           map (\<lambda>j. trying_line (length items) j (snd (items ! j))) [0 ..< length items]"
    unfolding run snd_conv pr .
  show ?thesis using c1 c2 c3 by blast
qed

theorem C5_all_candidates_exhausted_witness:
  "fst (run (\<lambda>h. case last h of
                    Get_bookingslists a b \<Rightarrow>
                      Response 200 (Body (JObj [(''bookings'',
                        JList [JObj [(''spaces'', JList [JStr ''r1'']),
                                     (''start'', JStr ''2024-01-01T08:00:00''),
                                     (''end'', JStr ''2024-01-01T12:00:00'')]])]))
                  | Post_bookings s a b \<Rightarrow>
                      Response 422 (Body (JObj [(''errors'',
                        JList [JObj [(''detail'', JStr ''too far ahead'')]])])))
            (JObj [(''r1'', JStr ''Desk A''), (''r2'', JStr ''Desk B'')])
            \<lparr>sent = [], printed = []\<rparr> ''2024-01-01'' ''08:30:00'' ''17:00:00'') =
     Inr (JBool False, ''all 2 spaces taken'')
   \<and> sent (snd (run (\<lambda>h. case last h of
                    Get_bookingslists a b \<Rightarrow>
                      Response 200 (Body (JObj [(''bookings'',
                        JList [JObj [(''spaces'', JList [JStr ''r1'']),
                                     (''start'', JStr ''2024-01-01T08:00:00''),
                                     (''end'', JStr ''2024-01-01T12:00:00'')]])]))
                  | Post_bookings s a b \<Rightarrow>
                      Response 422 (Body (JObj [(''errors'',
                        JList [JObj [(''detail'', JStr ''too far ahead'')]])])))
            (JObj [(''r1'', JStr ''Desk A''), (''r2'', JStr ''Desk B'')])
            \<lparr>sent = [], printed = []\<rparr> ''2024-01-01'' ''08:30:00'' ''17:00:00'')) =
     [Get_bookingslists ''2024-01-01T00:00:00'' ''2024-01-01T23:59:59.999'',
      Post_bookings (JStr ''r2'') ''2024-01-01T08:30:00'' ''2024-01-01T17:00:00'']"
proof -
  let ?bks = "JList [JObj [(''spaces'', JList [JStr ''r1'']),
                           (''start'', JStr ''2024-01-01T08:00:00''),
                           (''end'', JStr ''2024-01-01T12:00:00'')]]"
  let ?srv = "\<lambda>h. case last h of
                    Get_bookingslists a b \<Rightarrow> Response 200 (Body (JObj [(''bookings'', ?bks)]))
                  | Post_bookings s a b \<Rightarrow>
                      Response 422 (Body (JObj [(''errors'',
                        JList [JObj [(''detail'', JStr ''too far ahead'')]])]))"
  let ?items = "[(''r1'', JStr ''Desk A''), (''r2'', JStr ''Desk B'')]"
  let ?st = "\<lparr>sent = [], printed = []\<rparr>"
  let ?st1 = "\<lparr>sent = [Get_bookingslists ''2024-01-01T00:00:00'' ''2024-01-01T23:59:59.999''],
               printed = []\<rparr>"
  let ?sd = "''2024-01-01T08:30:00''" and ?ed = "''2024-01-01T17:00:00''"
  have h1: "?sd = ''2024-01-01'' @ ''T'' @ ''08:30:00''" by simp
  have h2: "?ed = ''2024-01-01'' @ ''T'' @ ''17:00:00''" by simp
  have h3: "get_bookings ?srv ?st ''2024-01-01'' = (?bks, ?st1)"
    by (simp add: get_bookings_def send_def dict_get_def)
  have h4: "?bks \<noteq> JNull" by simp
  have h5: "py_len ?bks = Inr 1" by simp
  have occ: "fst (space_is_free (JStr ''r1'') ?sd ?ed ?bks) = Inr False" by code_simp
  have free: "fst (space_is_free (JStr ''r2'') ?sd ?ed ?bks) = Inr True" by code_simp
  have h6: "\<forall>j < length ?items.
           fst (space_is_free (JStr (fst (?items ! j))) ?sd ?ed ?bks) = Inr False
           \<or> (candidate_free ?sd ?ed ?bks (?items ! j)
              \<and> \<not> status_200 (?srv (sent ?st1
                    @ map (post_of ?sd ?ed) (filter (candidate_free ?sd ?ed ?bks) (take j ?items))
                    @ [post_of ?sd ?ed (?items ! j)])))"
  proof (intro allI impI)
    fix j
    assume "j < length ?items"
    then have "j = 0 \<or> j = 1" by auto
    then show "fst (space_is_free (JStr (fst (?items ! j))) ?sd ?ed ?bks) = Inr False
           \<or> (candidate_free ?sd ?ed ?bks (?items ! j)
              \<and> \<not> status_200 (?srv (sent ?st1
                    @ map (post_of ?sd ?ed) (filter (candidate_free ?sd ?ed ?bks) (take j ?items))
                    @ [post_of ?sd ?ed (?items ! j)])))"
    proof
      assume "j = 0"
      then show ?thesis using occ by simp
    next
      assume "j = 1"
      then show ?thesis using free by (simp add: candidate_free_def post_of_def status_200_def)
    qed
  qed
  have n: "str_nat (length ?items) = ''2''" by code_simp
  have fl: "filter (candidate_free ?sd ?ed ?bks) ?items = [(''r2'', JStr ''Desk B'')]"
    using occ free by (simp add: candidate_free_def)
  from C5_all_candidates_exhausted [where srv = ?srv and st = ?st and items = ?items,
      OF h1 h2 h3 h4 h5 h6]
  show ?thesis unfolding n fl by (simp add: post_of_def)
qed



text \<open>
  C7. A reservation that blocks the target resource but whose start or end timestamp
  cannot be read (\<open>booking_times\<close> fails) is left out of the overlap test: the result of
  \<open>space_is_free\<close> is the one it gives without that reservation, and on that reservation
  alone, with a requested window that parses, the call returns True instead of raising.
\<close>

theorem C7_malformed_timestamps_skipped:
  assumes "blocked_ids (JObj kvs) = Inr ids" and "py_str space_id \<in> set ids"
    and "booking_times kvs = Inl err"
  shows "fst (space_is_free space_id start_time end_time (JList (pre @ JObj kvs # post))) =
         fst (space_is_free space_id start_time end_time (JList (pre @ post)))
       \<and> (\<forall>ts te. fromisoformat start_time = Inr ts \<and> fromisoformat end_time = Inr te \<longrightarrow>
            fst (space_is_free space_id start_time end_time (JList [JObj kvs])) = Inr True)"
proof -
  have c: "step_view space_id ts te (JObj kvs) = Continue" for ts te
    using assms by (simp add: step_view_def try_overlap_def)
  have "fst (space_is_free space_id start_time end_time (JList (pre @ JObj kvs # post))) =
         fst (space_is_free space_id start_time end_time (JList (pre @ post)))"
    using c by (simp add: space_is_free_fst loop_skip split: sum.splits)
  moreover have "fst (space_is_free space_id start_time end_time (JList [JObj kvs])) = Inr True"
    if "fromisoformat start_time = Inr ts" "fromisoformat end_time = Inr te" for ts te
    using that c by (simp add: space_is_free_fst loop_fst_Cons del: space_is_free_loop.simps(2))
  ultimately show ?thesis by blast
qed

theorem C7_malformed_timestamps_skipped_witness:
  "booking_times [(''spaces'', JStr ''r1''), (''start'', JStr ''tomorrow''),
                  (''end'', JStr ''2024-01-01T12:00:00'')] = Inl ValueError
   \<and> fst (space_is_free (JStr ''r1'') ''2024-01-01T09:00:00'' ''2024-01-01T17:00:00''
          (JList [JObj [(''spaces'', JStr ''r1''), (''start'', JStr ''tomorrow''),
                        (''end'', JStr ''2024-01-01T12:00:00'')]])) = Inr True"
proof -
  let ?kvs = "[(''spaces'', JStr ''r1''), (''start'', JStr ''tomorrow''),
               (''end'', JStr ''2024-01-01T12:00:00'')]"
  let ?d9 = "\<lparr>year = 2024, month = 1, day = 1, hour = 9, minute = 0, second = 0,
               microsecond = 0, utcoffset = None\<rparr>"
  let ?d17 = "\<lparr>year = 2024, month = 1, day = 1, hour = 17, minute = 0, second = 0,
                microsecond = 0, utcoffset = None\<rparr>"
  have p9: "fromisoformat ''2024-01-01T09:00:00'' = Inr ?d9" by code_simp
  have p17: "fromisoformat ''2024-01-01T17:00:00'' = Inr ?d17" by code_simp
  have ids: "blocked_ids (JObj ?kvs) = Inr [''r1'']" by code_simp
  have mem: "py_str (JStr ''r1'') \<in> set [''r1'']" by (simp add: py_str_def)
  have times: "booking_times ?kvs = Inl ValueError" by code_simp
  have "fst (space_is_free (JStr ''r1'') ''2024-01-01T09:00:00'' ''2024-01-01T17:00:00''
               (JList [JObj ?kvs])) = Inr True"
    using C7_malformed_timestamps_skipped [OF ids mem times, of "''2024-01-01T09:00:00''"
        "''2024-01-01T17:00:00''" "[]" "[]"] p9 p17
    by blast
  then show ?thesis using times by blast
qed

text \<open>
  C8. A reservation whose blocked identifiers (the \<^verbatim>\<open>spaces\<close> field, a list or one str, merged
  with the \<^verbatim>\<open>space\<close> field, each cast to a string) do not contain the target identifier
  cast to a string never changes the result: \<open>space_is_free\<close> returns what it returns
  without that reservation, whatever its interval.
\<close>

theorem C8_unrelated_reservation_ignored:
  assumes "blocked_ids b = Inr ids" and "py_str space_id \<notin> set ids"
  shows "fst (space_is_free space_id start_time end_time (JList (pre @ b # post))) =
         fst (space_is_free space_id start_time end_time (JList (pre @ post)))"
proof -
  have "step_view space_id ts te b = Continue" for ts te
    using assms by (simp add: step_view_def)
  then show ?thesis
    by (simp add: space_is_free_fst loop_skip split: sum.splits)
qed

theorem C8_unrelated_reservation_ignored_witness:
  "blocked_ids (JObj [(''spaces'', JList [JInt 7]), (''space'', JStr ''r1''),
                      (''start'', JStr ''2024-01-01T08:00:00''),
                      (''end'', JStr ''2024-01-01T12:00:00'')]) = Inr [''7'', ''r1'']
   \<and> fst (space_is_free (JStr ''r2'') ''2024-01-01T09:00:00'' ''2024-01-01T17:00:00''
          (JList [JObj [(''spaces'', JList [JInt 7]), (''space'', JStr ''r1''),
                        (''start'', JStr ''2024-01-01T08:00:00''),
                        (''end'', JStr ''2024-01-01T12:00:00'')]])) =
       fst (space_is_free (JStr ''r2'') ''2024-01-01T09:00:00'' ''2024-01-01T17:00:00''
          (JList []))"
proof -
  let ?b = "JObj [(''spaces'', JList [JInt 7]), (''space'', JStr ''r1''),
                  (''start'', JStr ''2024-01-01T08:00:00''),
                  (''end'', JStr ''2024-01-01T12:00:00'')]"
  have ids: "blocked_ids ?b = Inr [''7'', ''r1'']" by code_simp
  have mem: "py_str (JStr ''r2'') \<notin> set [''7'', ''r1'']" by (simp add: py_str_def)
  show ?thesis
    using C8_unrelated_reservation_ignored [OF ids mem, of "''2024-01-01T09:00:00''"
        "''2024-01-01T17:00:00''" "[]" "[]"] ids
    by simp
qed

text \<open>
  C9. The claim: a call of \<open>space_is_free\<close> leaves the reservations unchanged. For a
  reservation that carries a \<^verbatim>\<open>spaces\<close> list and a truthy \<^verbatim>\<open>space\<close>, line 141 appends to
  the list stored in the reservation, so each call makes that list one element longer.
  (By \<open>same_view_after\<close> the longer list never changes the result of a later call.)
\<close>

theorem C9_booking_changed_by_check:
  "snd (space_is_free (JStr ''r2'') ''2024-01-01T08:30:00'' ''2024-01-01T17:00:00''
          (JList [JObj [(''spaces'', JList [JStr ''r1'']), (''space'', JStr ''r1''),
                        (''start'', JStr ''2024-01-01T08:00:00''),
                        (''end'', JStr ''2024-01-01T12:00:00'')]])) =
     JList [JObj [(''spaces'', JList [JStr ''r1'', JStr ''r1'']), (''space'', JStr ''r1''),
                  (''start'', JStr ''2024-01-01T08:00:00''),
                  (''end'', JStr ''2024-01-01T12:00:00'')]]"
  by code_simp




end
